theory Spec2Isabelle
  imports Main "HOL-Library.Word"
begin

section \<open>Text and bytes\<close>

text \<open>
  A Python \<open>str\<close> is a sequence of Unicode code points and a \<open>bytes\<close> object a sequence
  of octets.  Literals of the source are written as Isabelle strings and lifted with
  \<open>ascii\<close>.
\<close>

type_synonym codepoint = nat
type_synonym pystr = "codepoint list"
type_synonym byte = "8 word"
type_synonym pybytes = "byte list"

definition ascii :: "string \<Rightarrow> pystr" where
  "ascii s = map of_char s"

definition CR :: codepoint where "CR = 13"
definition LF :: codepoint where "LF = 10"
definition NUL :: codepoint where "NUL = 0"

text \<open>Exceptions that the modelled calls can raise; \<open>OSError\<close> carries its errno.\<close>

datatype exn =
  IndexError | ValueError | UnicodeEncodeError | UnicodeDecodeError | OSError int

datatype 'a outcome = Returns 'a | Raises exn

subsection \<open>\<open>str.encode('UTF-8', 'strict')\<close> and \<open>bytes.decode('UTF-8', 'strict')\<close>\<close>

text \<open>
  Encoding fails (\<open>None\<close>, a \<open>UnicodeEncodeError\<close>) on a surrogate; numbers from
  \<open>0x110000\<close> on are no code points and no Python string holds them.  Decoding fails
  (\<open>None\<close>, a \<open>UnicodeDecodeError\<close>) on every ill-formed or truncated sequence.
\<close>

definition encode_cp :: "codepoint \<Rightarrow> pybytes option" where
  "encode_cp c =
     (if c < 0x80 then Some [of_nat c]
      else if c < 0x800 then Some [of_nat (0xC0 + c div 64), of_nat (0x80 + c mod 64)]
      else if 0xD800 \<le> c \<and> c \<le> 0xDFFF then None
      else if c < 0x10000 then
        Some [of_nat (0xE0 + c div 4096), of_nat (0x80 + c div 64 mod 64),
              of_nat (0x80 + c mod 64)]
      else if c < 0x110000 then
        Some [of_nat (0xF0 + c div 262144), of_nat (0x80 + c div 4096 mod 64),
              of_nat (0x80 + c div 64 mod 64), of_nat (0x80 + c mod 64)]
      else None)"

fun utf8_encode :: "pystr \<Rightarrow> pybytes option" where
  "utf8_encode [] = Some []"
| "utf8_encode (c # cs) =
     (case encode_cp c of
        None \<Rightarrow> None
      | Some bs \<Rightarrow> (case utf8_encode cs of None \<Rightarrow> None | Some r \<Rightarrow> Some (bs @ r)))"

definition is_cont :: "byte \<Rightarrow> bool" where
  "is_cont b = (0x80 \<le> b \<and> b \<le> 0xBF)"

definition low6 :: "byte \<Rightarrow> nat" where
  "low6 b = unat b mod 64"

fun utf8_decode :: "pybytes \<Rightarrow> pystr option" where
  "utf8_decode [] = Some []"
| "utf8_decode (b0 # bs) =
     (if b0 < 0x80 then map_option ((#) (unat b0)) (utf8_decode bs)
      else if 0xC2 \<le> b0 \<and> b0 \<le> 0xDF then
        (case bs of
           b1 # r \<Rightarrow>
             if is_cont b1
             then map_option ((#) ((unat b0 - 0xC0) * 64 + low6 b1)) (utf8_decode r)
             else None
         | _ \<Rightarrow> None)
      else if 0xE0 \<le> b0 \<and> b0 \<le> 0xEF then
        (case bs of
           b1 # b2 # r \<Rightarrow>
             if is_cont b1 \<and> is_cont b2 \<and> (b0 = 0xE0 \<longrightarrow> 0xA0 \<le> b1)
                \<and> (b0 = 0xED \<longrightarrow> b1 \<le> 0x9F)
             then map_option ((#) ((unat b0 - 0xE0) * 4096 + low6 b1 * 64 + low6 b2))
                    (utf8_decode r)
             else None
         | _ \<Rightarrow> None)
      else if 0xF0 \<le> b0 \<and> b0 \<le> 0xF4 then
        (case bs of
           b1 # b2 # b3 # r \<Rightarrow>
             if is_cont b1 \<and> is_cont b2 \<and> is_cont b3 \<and> (b0 = 0xF0 \<longrightarrow> 0x90 \<le> b1)
                \<and> (b0 = 0xF4 \<longrightarrow> b1 \<le> 0x8F)
             then map_option
                    ((#) ((unat b0 - 0xF0) * 262144 + low6 b1 * 4096 + low6 b2 * 64 + low6 b3))
                    (utf8_decode r)
             else None
         | _ \<Rightarrow> None)
      else None)"

subsection \<open>String operations used by \<open>sendCommand\<close>\<close>

text \<open>
  \<open>str(index)\<close> for a Python integer, as \<open>format\<close> calls it: decimal digits, a minus sign
  when negative.  The interpreter refuses the conversion with a \<open>ValueError\<close> when the
  number has more digits than \<open>sys.int_max_str_digits\<close>, 4300 unless reconfigured.
\<close>

definition int_max_str_digits :: nat where
  "int_max_str_digits = 4300"

fun digits :: "nat \<Rightarrow> pystr" where
  "digits n = (if n < 10 then [48 + n] else digits (n div 10) @ [48 + n mod 10])"

declare digits.simps [simp del]

definition str_int :: "int \<Rightarrow> exn + pystr" where
  "str_int i =
     (let ds = digits (nat \<bar>i\<bar>)
      in if int_max_str_digits < length ds then Inl ValueError
         else Inr (if i < 0 then 45 # ds else ds))"

text \<open>\<open>"\r\n" in data\<close>\<close>

fun contains_crlf :: "pystr \<Rightarrow> bool" where
  "contains_crlf (a # b # xs) = ((a = CR \<and> b = LF) \<or> contains_crlf (b # xs))"
| "contains_crlf _ = False"

text \<open>\<open>data.replace("\x00", "")\<close>\<close>

definition remove_nul :: "pystr \<Rightarrow> pystr" where
  "remove_nul s = filter (\<lambda>c. c \<noteq> NUL) s"

text \<open>\<open>str.strip()\<close> removes leading and trailing characters for which \<open>str.isspace\<close> holds.\<close>

definition isspace :: "codepoint \<Rightarrow> bool" where
  "isspace c =
     ((9 \<le> c \<and> c \<le> 13) \<or> (28 \<le> c \<and> c \<le> 32) \<or> c = 0x85 \<or> c = 0xA0 \<or> c = 0x1680
      \<or> (0x2000 \<le> c \<and> c \<le> 0x200A) \<or> c = 0x2028 \<or> c = 0x2029 \<or> c = 0x202F
      \<or> c = 0x205F \<or> c = 0x3000)"

definition strip :: "pystr \<Rightarrow> pystr" where
  "strip s = rev (dropWhile isspace (rev (dropWhile isspace s)))"

section \<open>The client and its socket\<close>

datatype SocketType = UNIX | TCP

datatype family = AF_UNIX | AF_INET

text \<open>
  A socket object: its address family and whether a connection has been established on
  it.  The client owns at most one and never shares it, so the object is kept by value in
  the handle.
\<close>

datatype socket = Socket (sock_family: family) (is_connected: bool)

text \<open>
  The fields of \<open>CANopenClient\<close>.  The constructor stores whatever it is given as socket
  type, so a value that is neither \<open>SocketType.UNIX\<close> nor \<open>SocketType.TCP\<close> is \<open>None\<close>.
\<close>

record CANopenClient =
  sock :: "socket option"
  sock_type :: "SocketType option"
  server_address :: pystr
  server_port :: int
  showVerbose :: bool

definition init :: "SocketType option \<Rightarrow> pystr \<Rightarrow> int \<Rightarrow> bool \<Rightarrow> CANopenClient" where
  "init sock_Type server_Address server_Port show_verbose =
     \<lparr>sock = None, sock_type = sock_Type, server_address = server_Address,
      server_port = server_Port, showVerbose = show_verbose\<rparr>"

text \<open>
  What the operating system and the peer do during one call: the platform name, and for
  every library call the client makes whether it raises.  \<open>recv\<close> gives the result of the
  n-th read of the call: a chunk of bytes (empty once the peer has shut down) or an
  exception.
\<close>

datatype recv_result = RecvBytes pybytes | RecvRaises exn

record sockenv =
  platform_system :: string
  socket_new :: "exn option"
  sock_connect :: "exn option"
  create_connection :: "exn option"
  sock_close :: "exn option"
  sendall :: "exn option"
  recv :: "nat \<Rightarrow> recv_result"

text \<open>The calls made on the socket layer, in order.\<close>

datatype event =
    EvSocket family
  | EvConnect pystr
  | EvCreateConnection pystr int
  | EvClose
  | EvSendall pybytes
  | EvRecv nat

text \<open>
  A finished call: how it ended, the client afterwards and the socket calls it made.
  Diagnostic printing (\<open>showVerbose\<close>, and the reply echoed by \<open>sendCommand\<close>) goes to
  standard output only and is left out.
\<close>

record 'a run =
  outcome :: "'a outcome"
  client :: CANopenClient
  io :: "event list"

definition connectUnixSocket :: "sockenv \<Rightarrow> CANopenClient \<Rightarrow> bool run" where
  "connectUnixSocket env c =
     (if platform_system env = ''Linux'' then
        (case socket_new env of
           Some err \<Rightarrow> \<lparr>outcome = Raises err, client = c, io = [EvSocket AF_UNIX]\<rparr>
         | None \<Rightarrow>
             (case sock_connect env of
                None \<Rightarrow>
                  \<lparr>outcome = Returns True,
                   client = c\<lparr>sock := Some (Socket AF_UNIX True)\<rparr>,
                   io = [EvSocket AF_UNIX, EvConnect (server_address c)]\<rparr>
              | Some err \<Rightarrow>
                  \<lparr>outcome = Returns False,
                   client = c\<lparr>sock := Some (Socket AF_UNIX False)\<rparr>,
                   io = [EvSocket AF_UNIX, EvConnect (server_address c)]\<rparr>))
      else \<lparr>outcome = Returns False, client = c, io = []\<rparr>)"

text \<open>
  The three dictionaries that \<open>connectTcpSocket\<close> builds with \<open>__get_constants\<close> are
  never read and touch neither the client nor the socket; they are not modelled.
\<close>

definition connectTcpSocket :: "sockenv \<Rightarrow> CANopenClient \<Rightarrow> bool run" where
  "connectTcpSocket env c =
     (if platform_system env = ''Linux'' \<or> platform_system env = ''Windows'' then
        (case create_connection env of
           None \<Rightarrow>
             \<lparr>outcome = Returns True,
              client = c\<lparr>sock := Some (Socket AF_INET True)\<rparr>,
              io = [EvCreateConnection (server_address c) (server_port c)]\<rparr>
         | Some err \<Rightarrow>
             \<lparr>outcome = Returns False, client = c,
              io = [EvCreateConnection (server_address c) (server_port c)]\<rparr>)
      else \<lparr>outcome = Returns False, client = c, io = []\<rparr>)"

definition connect :: "sockenv \<Rightarrow> CANopenClient \<Rightarrow> bool run" where
  "connect env c =
     (if sock c = None then
        (case sock_type c of
           Some UNIX \<Rightarrow> connectUnixSocket env c
         | Some TCP \<Rightarrow> connectTcpSocket env c
         | None \<Rightarrow> \<lparr>outcome = Returns False, client = c, io = []\<rparr>)
      else \<lparr>outcome = Returns True, client = c, io = []\<rparr>)"

definition disconnect :: "sockenv \<Rightarrow> CANopenClient \<Rightarrow> unit run" where
  "disconnect env c =
     (case sock c of
        Some s \<Rightarrow>
          (case sock_close env of
             Some err \<Rightarrow> \<lparr>outcome = Raises err, client = c, io = [EvClose]\<rparr>
           | None \<Rightarrow> \<lparr>outcome = Returns (), client = c\<lparr>sock := None\<rparr>, io = [EvClose]\<rparr>)
      | None \<Rightarrow> \<lparr>outcome = Returns (), client = c, io = []\<rparr>)"

section \<open>\<open>sendCommand\<close>\<close>

text \<open>
  The message built by the first statements of the \<open>try\<close> block: \<open>cmd[0]\<close> raises on the
  empty string, a command that starts with \<open>[\<close> is taken as it is, any other gets the
  prefix \<open>"[{0}] "\<close>, unless formatting the index raises.
\<close>

definition build_message :: "pystr \<Rightarrow> int \<Rightarrow> exn + pystr" where
  "build_message cmd index =
     (case cmd of
        [] \<Rightarrow> Inl IndexError
      | ch # _ \<Rightarrow>
          if ch = of_char CHR ''[''
          then Inr cmd
          else
            (case str_int index of
               Inl err \<Rightarrow> Inl err
             | Inr idx \<Rightarrow> Inr (ascii ''['' @ idx @ ascii ''] '' @ cmd)))"

text \<open>Building, encoding and sending: the exception raised, if any, and the calls made.\<close>

definition send_phase :: "sockenv \<Rightarrow> pystr \<Rightarrow> int \<Rightarrow> exn option \<times> event list" where
  "send_phase env cmd index =
     (case build_message cmd index of
        Inl err \<Rightarrow> (Some err, [])
      | Inr message \<Rightarrow>
          (case utf8_encode message of
             None \<Rightarrow> (Some UnicodeEncodeError, [])
           | Some txBytes \<Rightarrow> (sendall env, [EvSendall txBytes])))"

text \<open>
  The receive loop, started at read \<open>n\<close> with \<open>data\<close> accumulated so far.  It is left by
  \<open>break\<close> or by an exception of \<open>recv\<close> or \<open>decode\<close>; the second component counts the
  reads made.  A loop that goes on for ever has no value.
\<close>

datatype loop_exit = Break pystr | Abort exn pystr

partial_function (option) recv_loop ::
  "(nat \<Rightarrow> recv_result) \<Rightarrow> nat \<Rightarrow> pystr \<Rightarrow> (loop_exit \<times> nat) option" where
  "recv_loop rx n data =
     (case rx n of
        RecvRaises err \<Rightarrow> Some (Abort err data, Suc n)
      | RecvBytes rxBytes \<Rightarrow>
          (case utf8_decode rxBytes of
             None \<Rightarrow> Some (Abort UnicodeDecodeError data, Suc n)
           | Some text \<Rightarrow>
               if contains_crlf (data @ text)
               then Some (Break (data @ text), Suc n)
               else recv_loop rx (Suc n) (data @ text)))"

text \<open>
  The \<open>try\<close> block as a whole: it either runs to its end with the cleaned text in \<open>data\<close>,
  or an exception reaches the handler with \<open>data\<close> as it was at that moment.
\<close>

datatype try_exit = Completed pystr | Caught exn pystr

fun exit_data :: "try_exit \<Rightarrow> pystr" where
  "exit_data (Completed data) = data"
| "exit_data (Caught err data) = data"

definition send_try :: "sockenv \<Rightarrow> pystr \<Rightarrow> int \<Rightarrow> (try_exit \<times> event list) option" where
  "send_try env cmd index =
     (case send_phase env cmd index of
        (Some err, evs) \<Rightarrow> Some (Caught err [], evs)
      | (None, evs) \<Rightarrow>
          (case recv_loop (recv env) 0 [] of
             None \<Rightarrow> None
           | Some (Abort err data, n) \<Rightarrow>
               Some (Caught err data, evs @ replicate n (EvRecv 1024))
           | Some (Break data, n) \<Rightarrow>
               Some (Completed (strip (remove_nul data)), evs @ replicate n (EvRecv 1024))))"

definition sendCommand ::
  "sockenv \<Rightarrow> CANopenClient \<Rightarrow> pystr \<Rightarrow> int \<Rightarrow> pystr run option" where
  "sendCommand env c cmd index =
     (case sock c of
        None \<Rightarrow> Some \<lparr>outcome = Returns [], client = c, io = []\<rparr>
      | Some s \<Rightarrow>
          (case send_try env cmd index of
             None \<Rightarrow> None
           | Some (ex, evs) \<Rightarrow>
               Some \<lparr>outcome = Returns (exit_data ex), client = c, io = evs\<rparr>))"

text \<open>The byte strings handed to \<open>sendall\<close>, and the text of the chunks read so far.\<close>

fun transmitted :: "event list \<Rightarrow> pybytes list" where
  "transmitted [] = []"
| "transmitted (EvSendall bs # evs) = bs # transmitted evs"
| "transmitted (_ # evs) = transmitted evs"

fun accumulated :: "(nat \<Rightarrow> recv_result) \<Rightarrow> nat \<Rightarrow> pystr option" where
  "accumulated rx 0 = Some []"
| "accumulated rx (Suc n) =
     (case accumulated rx n of
        None \<Rightarrow> None
      | Some data \<Rightarrow>
          (case rx n of
             RecvRaises err \<Rightarrow> None
           | RecvBytes rxBytes \<Rightarrow>
               (case utf8_decode rxBytes of None \<Rightarrow> None | Some text \<Rightarrow> Some (data @ text))))"

text \<open>
  What holds when the loop started at read \<open>n\<close> is left after \<open>snd y\<close> reads: by \<open>break\<close>
  with the text of all chunks read, which contains the terminator; or by an exception in
  the last read, with the text of the chunks before it.
\<close>

definition loop_post :: "(nat \<Rightarrow> recv_result) \<Rightarrow> nat \<Rightarrow> loop_exit \<times> nat \<Rightarrow> bool" where
  "loop_post rx n y =
     (n < snd y \<and>
      (case fst y of
         Break data \<Rightarrow> accumulated rx (snd y) = Some data \<and> contains_crlf data
       | Abort err data \<Rightarrow>
           accumulated rx (snd y - 1) = Some data \<and> accumulated rx (snd y) = None))"

section \<open>Example clients and peers\<close>

definition tcp_client :: CANopenClient where
  "tcp_client = init (Some TCP) (ascii ''127.0.0.1'') 60000 False"

definition unix_client :: CANopenClient where
  "unix_client = init (Some UNIX) (ascii ''/tmp/CO_command_socket'') 0 False"

definition tcp_connected :: CANopenClient where
  "tcp_connected = tcp_client\<lparr>sock := Some (Socket AF_INET True)\<rparr>"

text \<open>
  A Linux host on which every call succeeds and the peer answers with the given chunks,
  one per read, and then shuts down (every further read returns no bytes).
\<close>

definition scripted :: "pybytes list \<Rightarrow> sockenv" where
  "scripted chunks =
     \<lparr>platform_system = ''Linux'', socket_new = None, sock_connect = None,
      create_connection = None, sock_close = None, sendall = None,
      recv = (\<lambda>n. if n < length chunks then RecvBytes (chunks ! n) else RecvBytes [])\<rparr>"

text \<open>The same host when nobody listens on the endpoint (\<open>ECONNREFUSED\<close>).\<close>

definition refused :: sockenv where
  "refused = (scripted [])\<lparr>sock_connect := Some (OSError 111),
                            create_connection := Some (OSError 111)\<rparr>"

text \<open>
  A peer that answers with the given chunks and then resets the connection: the next read
  raises \<open>ECONNRESET\<close>.
\<close>

definition reset_after :: "pybytes list \<Rightarrow> sockenv" where
  "reset_after chunks =
     (scripted chunks)\<lparr>recv :=
        (\<lambda>n. if n < length chunks then RecvBytes (chunks ! n) else RecvRaises (OSError 104))\<rparr>"

text \<open>The bytes of an ASCII literal.\<close>

definition bytes :: "string \<Rightarrow> pybytes" where
  "bytes s = map of_char s"

lemmas fixture_defs =
  tcp_client_def unix_client_def tcp_connected_def scripted_def refused_def reset_after_def
  init_def
  bytes_def ascii_def

lemmas send_defs =
  sendCommand_def send_try_def send_phase_def build_message_def str_int_def Let_def
  int_max_str_digits_def digits.simps encode_cp_def strip_def remove_nul_def isspace_def
  CR_def LF_def NUL_def

section \<open>Properties of the receive loop\<close>

lemma transmitted_append_recv:
  "transmitted (evs @ replicate n (EvRecv k)) = transmitted evs"
  by (induction evs rule: transmitted.induct) (simp_all, induction n, simp_all)

lemma recv_loop_sound_aux:
  assumes "recv_loop rx n d = Some y"
  shows "accumulated rx n = Some d \<longrightarrow> loop_post rx n y"
proof (rule recv_loop.raw_induct
    [where P = "\<lambda>rx n d y. accumulated rx n = Some d \<longrightarrow> loop_post rx n y", OF _ assms])
  fix f :: "(nat \<Rightarrow> recv_result) \<Rightarrow> nat \<Rightarrow> pystr \<Rightarrow> (loop_exit \<times> nat) option"
  fix rx n d y
  assume IH: "\<And>rx n d y. f rx n d = Some y \<Longrightarrow>
                accumulated rx n = Some d \<longrightarrow> loop_post rx n y"
  assume eq: "(case rx n of
        RecvBytes rxBytes \<Rightarrow>
          (case utf8_decode rxBytes of
             None \<Rightarrow> Some (Abort UnicodeDecodeError d, Suc n)
           | Some text \<Rightarrow>
               if contains_crlf (d @ text)
               then Some (Break (d @ text), Suc n)
               else f rx (Suc n) (d @ text))
      | RecvRaises err \<Rightarrow> Some (Abort err d, Suc n)) = Some y"
  show "accumulated rx n = Some d \<longrightarrow> loop_post rx n y"
  proof
    assume acc: "accumulated rx n = Some d"
    show "loop_post rx n y"
    proof (cases "rx n")
      case (RecvRaises err)
      with eq acc show ?thesis by (auto simp: loop_post_def)
    next
      case (RecvBytes bs)
      show ?thesis
      proof (cases "utf8_decode bs")
        case None
        with eq acc RecvBytes show ?thesis by (auto simp: loop_post_def)
      next
        case (Some t)
        show ?thesis
        proof (cases "contains_crlf (d @ t)")
          case True
          with eq acc RecvBytes Some show ?thesis by (auto simp: loop_post_def)
        next
          case False
          with eq RecvBytes Some have call: "f rx (Suc n) (d @ t) = Some y" by simp
          have "accumulated rx (Suc n) = Some (d @ t)"
            using acc RecvBytes Some by simp
          with IH [OF call] have "loop_post rx (Suc n) y" by simp
          then show ?thesis by (auto simp: loop_post_def)
        qed
      qed
    qed
  qed
qed

lemma recv_loop_sound:
  "recv_loop rx 0 [] = Some y \<Longrightarrow> loop_post rx 0 y"
  using recv_loop_sound_aux [of rx 0 "[]" y] by simp

lemma recv_loop_returns_aux:
  "accumulated rx n = Some d \<Longrightarrow> \<not> contains_crlf d \<Longrightarrow> m = n + j \<Longrightarrow>
   (accumulated rx m = None \<or> (\<exists>t. accumulated rx m = Some t \<and> contains_crlf t)) \<Longrightarrow>
   \<exists>y. recv_loop rx n d = Some y"
proof (induction j arbitrary: n d)
  case 0
  then show ?case by auto
next
  case (Suc j)
  show ?case
  proof (cases "rx n")
    case (RecvRaises err)
    then show ?thesis by (subst recv_loop.simps) simp
  next
    case (RecvBytes bs)
    show ?thesis
    proof (cases "utf8_decode bs")
      case None
      with RecvBytes show ?thesis by (subst recv_loop.simps) simp
    next
      case (Some t)
      show ?thesis
      proof (cases "contains_crlf (d @ t)")
        case True
        with RecvBytes Some show ?thesis by (subst recv_loop.simps) simp
      next
        case False
        have "accumulated rx (Suc n) = Some (d @ t)"
          using Suc.prems(1) RecvBytes Some by simp
        from Suc.IH [OF this False] Suc.prems(3,4)
        obtain y where "recv_loop rx (Suc n) (d @ t) = Some y" by auto
        with RecvBytes Some False show ?thesis by (subst recv_loop.simps) simp
      qed
    qed
  qed
qed

lemma recv_loop_returns:
  assumes "accumulated rx m = None \<or> (\<exists>t. accumulated rx m = Some t \<and> contains_crlf t)"
  shows "\<exists>y. recv_loop rx 0 [] = Some y"
  using recv_loop_returns_aux [of rx 0 "[]" m m] assms by simp

lemma recv_loop_blocks:
  assumes "\<And>m. \<exists>t. accumulated rx m = Some t \<and> \<not> contains_crlf t"
  shows "recv_loop rx 0 [] = None"
proof (cases "recv_loop rx 0 []")
  case None
  then show ?thesis .
next
  case (Some y)
  from recv_loop_sound [OF Some]
  have *: "case fst y of
            Break data \<Rightarrow> accumulated rx (snd y) = Some data \<and> contains_crlf data
          | Abort err data \<Rightarrow> accumulated rx (snd y) = None"
    by (auto simp: loop_post_def split: loop_exit.splits)
  from assms [of "snd y"] obtain t
    where "accumulated rx (snd y) = Some t" "\<not> contains_crlf t" by blast
  with * show ?thesis by (cases "fst y") auto
qed

section \<open>Properties of the client\<close>

text \<open>
  C6: for every command and index, \<open>sendCommand\<close> on a client whose handle is absent
  returns the empty string, leaves the client as it was and makes no socket call at all.
\<close>

theorem sendCommand_not_connected:
  "sock c = None \<Longrightarrow>
   sendCommand env c cmd index = Some \<lparr>outcome = Returns [], client = c, io = []\<rparr>"
  by (simp add: sendCommand_def)

theorem sendCommand_not_connected_witness:
  "sock tcp_client = None \<and>
   sendCommand (scripted []) tcp_client (ascii ''read 0x1018 1'') 1 =
     Some \<lparr>outcome = Returns [], client = tcp_client, io = []\<rparr>"
  using sendCommand_not_connected [of tcp_client "scripted []" "ascii ''read 0x1018 1''" 1]
  by (simp add: tcp_client_def init_def)

text \<open>
  C10: on a connected client the empty command returns the empty string and nothing is
  sent or read: \<open>cmd[0]\<close> raises \<open>IndexError\<close> inside the \<open>try\<close> block before \<open>sendall\<close>,
  and the handler swallows it.
\<close>

theorem sendCommand_empty_command:
  "sock c = Some s \<Longrightarrow>
   send_try env [] index = Some (Caught IndexError [], []) \<and>
   sendCommand env c [] index = Some \<lparr>outcome = Returns [], client = c, io = []\<rparr>"
  by (simp add: sendCommand_def send_try_def send_phase_def build_message_def)

theorem sendCommand_empty_command_witness:
  "sock tcp_connected = Some (Socket AF_INET True) \<and>
   send_try (scripted [bytes ''[1] OK'' @ [13, 10]]) [] 1 = Some (Caught IndexError [], []) \<and>
   sendCommand (scripted [bytes ''[1] OK'' @ [13, 10]]) tcp_connected [] 1 =
     Some \<lparr>outcome = Returns [], client = tcp_connected, io = []\<rparr>"
  using sendCommand_empty_command
    [of tcp_connected "Socket AF_INET True" "scripted [bytes ''[1] OK'' @ [13, 10]]" 1]
  by (simp add: tcp_connected_def)

text \<open>
  C7: when a first \<open>connect\<close> returns true, a second \<open>connect\<close> without a \<open>disconnect\<close>
  in between returns true as well, whatever the environment then is, makes no socket
  call and leaves the client untouched; the socket was set up by the first call only.
\<close>

theorem connect_twice:
  assumes "outcome (connect env c) = Returns True"
  shows "connect env' (client (connect env c)) =
           \<lparr>outcome = Returns True, client = client (connect env c), io = []\<rparr>"
proof -
  have "sock (client (connect env c)) \<noteq> None"
  proof (cases "sock c")
    case (Some s)
    then show ?thesis by (simp add: connect_def)
  next
    case None
    show ?thesis
    proof (cases "sock_type c")
      case no_type: None
      with None assms show ?thesis by (simp add: connect_def)
    next
      case (Some t)
      with None assms show ?thesis
        by (cases t)
           (simp_all add: connect_def connectUnixSocket_def connectTcpSocket_def
              split: if_splits option.splits)
    qed
  qed
  moreover have "connect env' c1 = \<lparr>outcome = Returns True, client = c1, io = []\<rparr>"
    if "sock c1 \<noteq> None" for c1
    using that by (cases "sock c1") (simp_all add: connect_def)
  ultimately show ?thesis by blast
qed

theorem connect_twice_witness:
  "outcome (connect (scripted []) tcp_client) = Returns True \<and>
   io (connect (scripted []) tcp_client) =
     [EvCreateConnection (ascii ''127.0.0.1'') 60000] \<and>
   connect refused (client (connect (scripted []) tcp_client)) =
     \<lparr>outcome = Returns True, client = tcp_connected, io = []\<rparr>"
proof -
  have h: "outcome (connect (scripted []) tcp_client) = Returns True"
    by (simp add: connect_def connectTcpSocket_def fixture_defs)
  have "client (connect (scripted []) tcp_client) = tcp_connected"
    by (simp add: connect_def connectTcpSocket_def fixture_defs)
  moreover have "io (connect (scripted []) tcp_client) =
     [EvCreateConnection (ascii ''127.0.0.1'') 60000]"
    by (simp add: connect_def connectTcpSocket_def fixture_defs)
  ultimately show ?thesis using h connect_twice [OF h, of refused] by simp
qed

text \<open>
  C1 (the Unix-domain path): on Linux, with nobody listening on the path,
  \<open>connect\<close> returns false but leaves in the handle the socket it created, which is not
  connected; a retry then returns true without any socket call.  On the TCP path the
  handle stays absent.
\<close>

theorem connect_unix_failure_keeps_socket:
  "connect refused unix_client =
     \<lparr>outcome = Returns False,
      client = unix_client\<lparr>sock := Some (Socket AF_UNIX False)\<rparr>,
      io = [EvSocket AF_UNIX, EvConnect (ascii ''/tmp/CO_command_socket'')]\<rparr> \<and>
   connect (scripted []) (client (connect refused unix_client)) =
     \<lparr>outcome = Returns True,
      client = unix_client\<lparr>sock := Some (Socket AF_UNIX False)\<rparr>, io = []\<rparr> \<and>
   sock (client (connect refused tcp_client)) = None"
  by (simp add: connect_def connectUnixSocket_def connectTcpSocket_def fixture_defs)

lemma send_try_io:
  "send_try env cmd index = Some (ex, evs) \<Longrightarrow>
   \<exists>n. evs = snd (send_phase env cmd index) @ replicate n (EvRecv 1024)"
  by (cases "send_phase env cmd index")
     (auto simp: send_try_def split: option.splits loop_exit.splits prod.splits)

lemma sendCommand_io:
  assumes "sock c = Some s" and "sendCommand env c cmd index = Some r"
  shows "transmitted (io r) = transmitted (snd (send_phase env cmd index))"
proof -
  from assms obtain ex evs where "send_try env cmd index = Some (ex, evs)" "io r = evs"
    by (auto simp: sendCommand_def split: option.splits)
  with send_try_io [of env cmd index ex evs] show ?thesis
    by (auto simp: transmitted_append_recv)
qed

text \<open>
  C5: on a connected client, a non-empty command whose first character is \<open>[\<close> is handed
  to \<open>sendall\<close> as its own UTF-8 encoding, once and unchanged, whatever the index: that is
  the only call of the sending part, and the only transmission of every run that returns.
\<close>

theorem sendCommand_tagged_verbatim:
  assumes "sock c = Some s"
    and "cmd = of_char CHR ''['' # rest"
    and "utf8_encode cmd = Some txBytes"
  shows "snd (send_phase env cmd index) = [EvSendall txBytes] \<and>
         (\<forall>r. sendCommand env c cmd index = Some r \<longrightarrow> transmitted (io r) = [txBytes])"
proof -
  have sent: "snd (send_phase env cmd index) = [EvSendall txBytes]"
    using assms(2,3) by (simp add: send_phase_def build_message_def)
  with sendCommand_io [OF assms(1)] show ?thesis by simp
qed

theorem sendCommand_tagged_verbatim_witness:
  "sock tcp_connected = Some (Socket AF_INET True) \<and>
   ascii ''[3] read 0x1018 1'' = of_char CHR ''['' # ascii ''3] read 0x1018 1'' \<and>
   utf8_encode (ascii ''[3] read 0x1018 1'') = Some (bytes ''[3] read 0x1018 1'') \<and>
   snd (send_phase (scripted [bytes ''[3] OK'' @ [13, 10]]) (ascii ''[3] read 0x1018 1'') 7) =
     [EvSendall (bytes ''[3] read 0x1018 1'')] \<and>
   sendCommand (scripted [bytes ''[3] OK'' @ [13, 10]]) tcp_connected
       (ascii ''[3] read 0x1018 1'') 7 =
     Some \<lparr>outcome = Returns (ascii ''[3] OK''), client = tcp_connected,
           io = [EvSendall (bytes ''[3] read 0x1018 1''), EvRecv 1024]\<rparr> \<and>
   transmitted [EvSendall (bytes ''[3] read 0x1018 1''), EvRecv 1024] =
     [bytes ''[3] read 0x1018 1'']"
proof -
  have h1: "sock tcp_connected = Some (Socket AF_INET True)"
    by (simp add: fixture_defs)
  have h2: "ascii ''[3] read 0x1018 1'' = of_char CHR ''['' # ascii ''3] read 0x1018 1''"
    by (simp add: ascii_def)
  have h3: "utf8_encode (ascii ''[3] read 0x1018 1'') = Some (bytes ''[3] read 0x1018 1'')"
    by (simp add: ascii_def bytes_def encode_cp_def)
  have run: "sendCommand (scripted [bytes ''[3] OK'' @ [13, 10]]) tcp_connected
       (ascii ''[3] read 0x1018 1'') 7 =
     Some \<lparr>outcome = Returns (ascii ''[3] OK''), client = tcp_connected,
           io = [EvSendall (bytes ''[3] read 0x1018 1''), EvRecv 1024]\<rparr>"
    by (simp add: fixture_defs send_defs recv_loop.simps)
  from sendCommand_tagged_verbatim [OF h1 h2 h3, of "scripted [bytes ''[3] OK'' @ [13, 10]]" 7]
    h1 h2 h3 run
  show ?thesis by simp
qed

lemma digits_longer: "10 ^ k \<le> n \<Longrightarrow> k < length (digits n)"
proof (induction k arbitrary: n)
  case 0
  show ?case by (subst digits.simps) simp
next
  case (Suc k)
  have "(10::nat) * 1 \<le> 10 * 10 ^ k" by (intro mult_le_mono2) simp
  also have "\<dots> \<le> n" using Suc.prems by simp
  finally have ten: "10 \<le> n" by simp
  from Suc.prems have "10 ^ k \<le> n div 10" by simp
  from Suc.IH [OF this] have "k < length (digits (n div 10))" .
  with ten show ?case by (subst digits.simps) simp
qed

lemma str_int_limit:
  assumes "10 ^ int_max_str_digits \<le> \<bar>i\<bar>"
  shows "str_int i = Inl ValueError"
proof -
  from assms have "int (10 ^ int_max_str_digits) \<le> \<bar>i\<bar>" by simp
  then have "10 ^ int_max_str_digits \<le> nat \<bar>i\<bar>" by linarith
  from digits_longer [OF this] show ?thesis by (simp add: str_int_def Let_def)
qed

text \<open>
  C2, amended: on a connected client, for a \<^emph>\<open>non-empty\<close> command that does not start with
  \<open>[\<close> and an index that \<open>str\<close> can render (at most 4300 digits), the UTF-8 encoding of
  \<open>"[" + str(index) + "] " + cmd\<close> is handed to \<open>sendall\<close>, once and with nothing appended:
  that is the only call of the sending part, and the only transmission of every run that
  returns.
\<close>

theorem sendCommand_untagged_prefixed:
  assumes "sock c = Some s"
    and "cmd \<noteq> []"
    and "hd cmd \<noteq> of_char CHR ''[''"
    and "str_int index = Inr idx"
    and "utf8_encode (ascii ''['' @ idx @ ascii ''] '' @ cmd) = Some txBytes"
  shows "snd (send_phase env cmd index) = [EvSendall txBytes] \<and>
         (\<forall>r. sendCommand env c cmd index = Some r \<longrightarrow> transmitted (io r) = [txBytes])"
proof -
  from assms(2) obtain ch rest where cmd: "cmd = ch # rest" by (cases cmd) auto
  have sent: "snd (send_phase env cmd index) = [EvSendall txBytes]"
    using assms(3,4,5) cmd by (simp add: send_phase_def build_message_def)
  with sendCommand_io [OF assms(1)] show ?thesis by simp
qed

theorem sendCommand_untagged_prefixed_witness:
  "sock tcp_connected = Some (Socket AF_INET True) \<and>
   ascii ''read 0x1018 1'' \<noteq> [] \<and>
   hd (ascii ''read 0x1018 1'') \<noteq> of_char CHR ''['' \<and>
   str_int 1 = Inr (ascii ''1'') \<and>
   utf8_encode (ascii ''['' @ ascii ''1'' @ ascii ''] '' @ ascii ''read 0x1018 1'') =
     Some (bytes ''[1] read 0x1018 1'') \<and>
   snd (send_phase (scripted [bytes ''[1] OK'' @ [13, 10]]) (ascii ''read 0x1018 1'') 1) =
     [EvSendall (bytes ''[1] read 0x1018 1'')] \<and>
   sendCommand (scripted [bytes ''[1] OK'' @ [13, 10]]) tcp_connected
       (ascii ''read 0x1018 1'') 1 =
     Some \<lparr>outcome = Returns (ascii ''[1] OK''), client = tcp_connected,
           io = [EvSendall (bytes ''[1] read 0x1018 1''), EvRecv 1024]\<rparr> \<and>
   transmitted [EvSendall (bytes ''[1] read 0x1018 1''), EvRecv 1024] =
     [bytes ''[1] read 0x1018 1'']"
proof -
  have h1: "sock tcp_connected = Some (Socket AF_INET True)"
    by (simp add: fixture_defs)
  have h2: "ascii ''read 0x1018 1'' \<noteq> []"
    by (simp add: ascii_def)
  have h3: "hd (ascii ''read 0x1018 1'') \<noteq> of_char CHR ''[''"
    by (simp add: ascii_def)
  have h4: "str_int 1 = Inr (ascii ''1'')"
    by (simp add: str_int_def Let_def int_max_str_digits_def digits.simps ascii_def)
  have h5: "utf8_encode (ascii ''['' @ ascii ''1'' @ ascii ''] '' @ ascii ''read 0x1018 1'') =
     Some (bytes ''[1] read 0x1018 1'')"
    by (simp add: ascii_def bytes_def encode_cp_def)
  have run: "sendCommand (scripted [bytes ''[1] OK'' @ [13, 10]]) tcp_connected
       (ascii ''read 0x1018 1'') 1 =
     Some \<lparr>outcome = Returns (ascii ''[1] OK''), client = tcp_connected,
           io = [EvSendall (bytes ''[1] read 0x1018 1''), EvRecv 1024]\<rparr>"
    by (simp add: fixture_defs send_defs recv_loop.simps)
  from sendCommand_untagged_prefixed
         [OF h1 h2 h3 h4 h5, of "scripted [bytes ''[1] OK'' @ [13, 10]]"]
    h1 h2 h3 h4 h5 run
  show ?thesis by simp
qed

text \<open>
  C2 as stated fails at the empty command: it does not start with \<open>[\<close>, its prefixed form
  \<open>"[1] "\<close> has a UTF-8 encoding, and yet nothing at all is handed to \<open>sendall\<close>.  It
  fails as well at an index of 4301 digits: formatting raises inside the \<open>try\<close> block and
  again nothing is sent.
\<close>

theorem sendCommand_untagged_counterexample:
  "sock tcp_connected = Some (Socket AF_INET True) \<and>
   str_int 1 = Inr (ascii ''1'') \<and>
   utf8_encode (ascii ''['' @ ascii ''1'' @ ascii ''] '' @ []) = Some (bytes ''[1] '') \<and>
   snd (send_phase (scripted [bytes ''[1] OK'' @ [13, 10]]) [] 1) = [] \<and>
   sendCommand (scripted [bytes ''[1] OK'' @ [13, 10]]) tcp_connected [] 1 =
     Some \<lparr>outcome = Returns [], client = tcp_connected, io = []\<rparr> \<and>
   transmitted [] \<noteq> [bytes ''[1] ''] \<and>
   sendCommand (scripted [bytes ''[1] OK'' @ [13, 10]]) tcp_connected
       (ascii ''read 0x1018 1'') (10 ^ int_max_str_digits) =
     Some \<lparr>outcome = Returns [], client = tcp_connected, io = []\<rparr>"
proof -
  have small: "sock tcp_connected = Some (Socket AF_INET True) \<and>
   str_int 1 = Inr (ascii ''1'') \<and>
   utf8_encode (ascii ''['' @ ascii ''1'' @ ascii ''] '' @ []) = Some (bytes ''[1] '') \<and>
   snd (send_phase (scripted [bytes ''[1] OK'' @ [13, 10]]) [] 1) = [] \<and>
   sendCommand (scripted [bytes ''[1] OK'' @ [13, 10]]) tcp_connected [] 1 =
     Some \<lparr>outcome = Returns [], client = tcp_connected, io = []\<rparr> \<and>
   transmitted [] \<noteq> [bytes ''[1] '']"
    by (simp add: fixture_defs send_defs)
  have "str_int (10 ^ int_max_str_digits) = Inl ValueError"
    by (rule str_int_limit) simp
  then have "build_message (ascii ''read 0x1018 1'') (10 ^ int_max_str_digits) = Inl ValueError"
    by (simp add: build_message_def ascii_def)
  then have "send_try env (ascii ''read 0x1018 1'') (10 ^ int_max_str_digits) =
               Some (Caught ValueError [], [])" for env
    by (simp add: send_try_def send_phase_def)
  then have "sendCommand (scripted [bytes ''[1] OK'' @ [13, 10]]) tcp_connected
       (ascii ''read 0x1018 1'') (10 ^ int_max_str_digits) =
     Some \<lparr>outcome = Returns [], client = tcp_connected, io = []\<rparr>"
    by (simp add: sendCommand_def tcp_connected_def)
  with small show ?thesis by blast
qed

lemma strip_subset: "set (strip s) \<subseteq> set s"
  by (auto simp: strip_def dest!: set_dropWhileD)

lemma remove_nul_no_nul: "NUL \<notin> set (remove_nul s)"
  by (simp add: remove_nul_def)

lemma send_try_completed:
  assumes "send_try env cmd index = Some (Completed reply, evs)"
  shows "\<exists>data n. recv_loop (recv env) 0 [] = Some (Break data, n) \<and>
           reply = strip (remove_nul data) \<and> fst (send_phase env cmd index) = None"
  using assms
  by (cases "send_phase env cmd index")
     (auto simp: send_try_def split: option.splits loop_exit.splits prod.splits)

lemma sendCommand_connected:
  "sock c = Some s \<Longrightarrow>
   sendCommand env c cmd index =
     map_option (\<lambda>(ex, evs). \<lparr>outcome = Returns (exit_data ex), client = c, io = evs\<rparr>)
       (send_try env cmd index)"
  by (simp add: sendCommand_def split: option.splits)

lemma utf8_decode_ascii: "\<forall>b\<in>set bs. b < 0x80 \<Longrightarrow> utf8_decode bs = Some (map unat bs)"
  by (induction bs) simp_all

lemma contains_crlf_append: "contains_crlf xs \<Longrightarrow> contains_crlf (xs @ ys)"
  by (induction xs rule: contains_crlf.induct) auto

lemma recv_loop_chunks:
  assumes "\<forall>i<length chunks. rx (n + i) = RecvBytes (chunks ! i)"
    and "\<forall>b\<in>set (concat chunks). b < 0x80"
    and "contains_crlf (d @ map unat (concat chunks))"
    and "\<not> contains_crlf d"
  shows "\<exists>j. contains_crlf (d @ map unat (concat (take j chunks))) \<and>
           recv_loop rx n d = Some (Break (d @ map unat (concat (take j chunks))), n + j)"
  using assms
proof (induction chunks arbitrary: n d)
  case Nil
  then show ?case by simp
next
  case (Cons ch chunks)
  from Cons.prems(1) have first: "rx n = RecvBytes ch" by fastforce
  from Cons.prems(2) have dec: "utf8_decode ch = Some (map unat ch)"
    by (intro utf8_decode_ascii) simp
  show ?case
  proof (cases "contains_crlf (d @ map unat ch)")
    case True
    with first dec have "recv_loop rx n d = Some (Break (d @ map unat ch), n + 1)"
      by (subst recv_loop.simps) simp
    with True have "contains_crlf (d @ map unat (concat (take 1 (ch # chunks)))) \<and>
           recv_loop rx n d =
             Some (Break (d @ map unat (concat (take 1 (ch # chunks)))), n + 1)"
      by simp
    then show ?thesis by blast
  next
    case False
    have rest: "\<forall>i<length chunks. rx (Suc n + i) = RecvBytes (chunks ! i)"
    proof (intro allI impI)
      fix i assume "i < length chunks"
      with Cons.prems(1) have "rx (n + Suc i) = RecvBytes ((ch # chunks) ! Suc i)"
        by (metis Suc_less_eq length_Cons)
      then show "rx (Suc n + i) = RecvBytes (chunks ! i)" by simp
    qed
    from Cons.prems(2) have low: "\<forall>b\<in>set (concat chunks). b < 0x80" by simp
    from Cons.prems(3) have crlf: "contains_crlf ((d @ map unat ch) @ map unat (concat chunks))"
      by simp
    from Cons.IH [OF rest low crlf False] obtain j
      where found: "contains_crlf ((d @ map unat ch) @ map unat (concat (take j chunks)))"
        and loop: "recv_loop rx (Suc n) (d @ map unat ch) =
             Some (Break ((d @ map unat ch) @ map unat (concat (take j chunks))), Suc n + j)"
      by blast
    from first dec False loop
    have "recv_loop rx n d =
            Some (Break ((d @ map unat ch) @ map unat (concat (take j chunks))), Suc n + j)"
      by (subst recv_loop.simps) simp
    with found
    have "contains_crlf (d @ map unat (concat (take (Suc j) (ch # chunks)))) \<and>
          recv_loop rx n d =
            Some (Break (d @ map unat (concat (take (Suc j) (ch # chunks)))), n + Suc j)"
      by simp
    then show ?thesis by blast
  qed
qed

text \<open>
  An ASCII response whose only terminator is at its end, cut into chunks in any way: the
  loop is left by \<open>break\<close> with the text of the whole response.
\<close>

lemma chunked_reply:
  assumes low: "\<forall>b\<in>set (concat chunks). b < 0x80"
    and rx: "\<forall>i<length chunks. rx i = RecvBytes (chunks ! i)"
    and crlf: "contains_crlf (map unat (concat chunks))"
    and final: "\<not> contains_crlf (butlast (map unat (concat chunks)))"
  shows "\<exists>k. recv_loop rx 0 [] = Some (Break (map unat (concat chunks)), k)"
proof -
  from recv_loop_chunks [of chunks rx 0 "[]"] low rx crlf obtain j
    where found: "contains_crlf (map unat (concat (take j chunks)))"
      and loop: "recv_loop rx 0 [] = Some (Break (map unat (concat (take j chunks))), j)"
    by auto
  define p where "p = map unat (concat (take j chunks))"
  define q where "q = map unat (concat (drop j chunks))"
  have whole: "map unat (concat chunks) = p @ q"
    unfolding p_def q_def by (metis append_take_drop_id concat_append map_append)
  have "q = []"
  proof (rule ccontr)
    assume "q \<noteq> []"
    then have "butlast (p @ q) = p @ butlast q" by (simp add: butlast_append)
    with found have "contains_crlf (butlast (p @ q))"
      by (simp add: p_def contains_crlf_append)
    with final whole show False by simp
  qed
  with whole have "map unat (concat chunks) = p" by simp
  with loop show ?thesis by (auto simp: p_def)
qed

text \<open>
  C3, amended: the receive loop is left by \<open>break\<close> only once the text decoded from the
  chunks read so far contains \<open>\r\n\<close>, so a \<open>try\<close> block that runs to its end has cleaned
  such a text; and when the response \<open>"[1] OK\r\n"\<close> arrives split across any number of
  reads, at any points, a connected client whose send succeeded returns \<open>"[1] OK"\<close>: the
  sequence tag is part of the returned text.
\<close>

theorem recv_until_terminator:
  assumes "sock c = Some s" and "fst (send_phase env cmd index) = None"
  shows "(\<forall>data n. recv_loop (recv env) 0 [] = Some (Break data, n) \<longrightarrow>
            accumulated (recv env) n = Some data \<and> contains_crlf data) \<and>
         (\<forall>reply evs. send_try env cmd index = Some (Completed reply, evs) \<longrightarrow>
            (\<exists>data n. accumulated (recv env) n = Some data \<and> contains_crlf data \<and>
               reply = strip (remove_nul data))) \<and>
         (concat chunks = bytes ''[1] OK'' @ [13, 10] \<and>
            (\<forall>i<length chunks. recv env i = RecvBytes (chunks ! i)) \<longrightarrow>
          map_option outcome (sendCommand env c cmd index) = Some (Returns (ascii ''[1] OK'')))"
proof -
  have brk: "accumulated (recv env) n = Some data \<and> contains_crlf data"
    if "recv_loop (recv env) 0 [] = Some (Break data, n)" for data n
    using recv_loop_sound [OF that] by (simp add: loop_post_def)
  have fin: "\<exists>data n. accumulated (recv env) n = Some data \<and> contains_crlf data \<and>
          reply = strip (remove_nul data)"
    if "send_try env cmd index = Some (Completed reply, evs)" for reply evs
    using send_try_completed [OF that] brk by blast
  have split: "map_option outcome (sendCommand env c cmd index) =
                 Some (Returns (ascii ''[1] OK''))"
    if h: "concat chunks = bytes ''[1] OK'' @ [13, 10] \<and>
            (\<forall>i<length chunks. recv env i = RecvBytes (chunks ! i))"
  proof -
    obtain evs where sp: "send_phase env cmd index = (None, evs)"
      using assms(2) by (cases "send_phase env cmd index") auto
    from h have whole: "concat chunks = bytes ''[1] OK'' @ [13, 10]" by simp
    have whole_text: "map unat (concat chunks) = ascii ''[1] OK'' @ [13, 10]"
      unfolding whole by (simp add: bytes_def ascii_def)
    have low: "\<forall>b\<in>set (concat chunks). b < 0x80"
      unfolding whole by (simp add: bytes_def)
    have crlf: "contains_crlf (map unat (concat chunks))"
      unfolding whole_text by (simp add: ascii_def CR_def LF_def)
    have final: "\<not> contains_crlf (butlast (map unat (concat chunks)))"
      unfolding whole_text by (simp add: ascii_def CR_def LF_def)
    from chunked_reply [OF low _ crlf final, of "recv env"] h obtain k
      where "recv_loop (recv env) 0 [] = Some (Break (map unat (concat chunks)), k)"
      by blast
    then have "recv_loop (recv env) 0 [] = Some (Break (ascii ''[1] OK'' @ [13, 10]), k)"
      by (simp only: whole_text)
    moreover have "strip (remove_nul (ascii ''[1] OK'' @ [13, 10])) = ascii ''[1] OK''"
      by (simp add: strip_def remove_nul_def isspace_def ascii_def NUL_def)
    ultimately show ?thesis
      using sp assms(1) by (simp add: sendCommand_def send_try_def)
  qed
  from brk fin split show ?thesis by blast
qed

theorem recv_until_terminator_witness:
  "sock tcp_connected = Some (Socket AF_INET True) \<and>
   fst (send_phase (scripted [bytes ''[1'', bytes ''] O'', bytes ''K'' @ [13, 10]])
          (ascii ''read 0x1018 1'') 1) = None \<and>
   concat [bytes ''[1'', bytes ''] O'', bytes ''K'' @ [13, 10]] = bytes ''[1] OK'' @ [13, 10] \<and>
   recv_loop (recv (scripted [bytes ''[1'', bytes ''] O'', bytes ''K'' @ [13, 10]])) 0 [] =
     Some (Break (ascii ''[1] OK'' @ [13, 10]), 3) \<and>
   accumulated (recv (scripted [bytes ''[1'', bytes ''] O'', bytes ''K'' @ [13, 10]])) 3 =
     Some (ascii ''[1] OK'' @ [13, 10]) \<and>
   contains_crlf (ascii ''[1] OK'' @ [13, 10]) \<and>
   map_option outcome
     (sendCommand (scripted [bytes ''[1'', bytes ''] O'', bytes ''K'' @ [13, 10]]) tcp_connected
        (ascii ''read 0x1018 1'') 1) = Some (Returns (ascii ''[1] OK''))"
proof -
  let ?chunks = "[bytes ''[1'', bytes ''] O'', bytes ''K'' @ [13, 10]]"
  let ?env = "scripted ?chunks"
  have h1: "sock tcp_connected = Some (Socket AF_INET True)"
    by (simp add: fixture_defs)
  have h2: "fst (send_phase ?env (ascii ''read 0x1018 1'') 1) = None"
    by (simp add: fixture_defs send_defs)
  have h3: "concat ?chunks = bytes ''[1] OK'' @ [13, 10]"
    by (simp add: bytes_def)
  have h4: "\<forall>i<length ?chunks. recv ?env i = RecvBytes (?chunks ! i)"
    by (simp add: scripted_def)
  have loop: "recv_loop (recv ?env) 0 [] = Some (Break (ascii ''[1] OK'' @ [13, 10]), 3)"
    by (simp add: fixture_defs recv_loop.simps CR_def LF_def)
  from recv_until_terminator [OF h1 h2, of ?chunks] h1 h2 h3 h4 loop
  show ?thesis by simp
qed

text \<open>
  C3 as stated fails on its own example: with the chunks \<open>"[1] O"\<close> and \<open>"K\r\n"\<close> the
  returned text is \<open>"[1] OK"\<close>, not \<open>"OK"\<close>.
\<close>

theorem split_reply_counterexample:
  "sendCommand (scripted [bytes ''[1] O'', bytes ''K'' @ [13, 10]]) tcp_connected
     (ascii ''read 0x1018 1'') 1 =
     Some \<lparr>outcome = Returns (ascii ''[1] OK''), client = tcp_connected,
           io = [EvSendall (bytes ''[1] read 0x1018 1''), EvRecv 1024, EvRecv 1024]\<rparr> \<and>
   ascii ''[1] OK'' \<noteq> ascii ''OK''"
  by (simp add: fixture_defs send_defs recv_loop.simps)

text \<open>
  C4, amended: whenever the \<open>try\<close> block of a connected client runs to its end, the value
  returned is the cleaned text and contains no null character, wherever the nulls were in
  the raw response; and for the raw response \<open>"[1] OK\x00\x00\r\n"\<close>, received in one
  read after a successful send, the returned text is \<open>"[1] OK"\<close>.
\<close>

theorem reply_without_nul:
  assumes "sock c = Some s"
  shows "(\<forall>reply evs. send_try env cmd index = Some (Completed reply, evs) \<longrightarrow>
            sendCommand env c cmd index =
              Some \<lparr>outcome = Returns reply, client = c, io = evs\<rparr> \<and>
            NUL \<notin> set reply) \<and>
         (fst (send_phase env cmd index) = None \<and>
            recv env 0 = RecvBytes (bytes ''[1] OK'' @ [0, 0, 13, 10]) \<longrightarrow>
          map_option outcome (sendCommand env c cmd index) = Some (Returns (ascii ''[1] OK'')))"
proof -
  have clean: "sendCommand env c cmd index =
              Some \<lparr>outcome = Returns reply, client = c, io = evs\<rparr> \<and> NUL \<notin> set reply"
    if fin: "send_try env cmd index = Some (Completed reply, evs)" for reply evs
  proof -
    from send_try_completed [OF fin] obtain data
      where "reply = strip (remove_nul data)" by blast
    with strip_subset [of "remove_nul data"] remove_nul_no_nul [of data]
    have "NUL \<notin> set reply" by blast
    with fin assms show ?thesis by (simp add: sendCommand_connected)
  qed
  have one: "map_option outcome (sendCommand env c cmd index) = Some (Returns (ascii ''[1] OK''))"
    if h: "fst (send_phase env cmd index) = None \<and>
            recv env 0 = RecvBytes (bytes ''[1] OK'' @ [0, 0, 13, 10])"
  proof -
    obtain evs where sp: "send_phase env cmd index = (None, evs)"
      using h by (cases "send_phase env cmd index") auto
    have "recv_loop (recv env) 0 [] = Some (Break (ascii ''[1] OK'' @ [0, 0, 13, 10]), 1)"
      using h by (subst recv_loop.simps) (simp add: bytes_def ascii_def CR_def LF_def)
    with sp assms show ?thesis
      by (simp add: sendCommand_def send_try_def strip_def remove_nul_def isspace_def
            ascii_def NUL_def)
  qed
  from clean one show ?thesis by blast
qed

theorem reply_without_nul_witness:
  "sock tcp_connected = Some (Socket AF_INET True) \<and>
   send_try (scripted [bytes ''[1] OK'' @ [0, 0, 13, 10]]) (ascii ''read 0x1018 1'') 1 =
     Some (Completed (ascii ''[1] OK''), [EvSendall (bytes ''[1] read 0x1018 1''), EvRecv 1024]) \<and>
   fst (send_phase (scripted [bytes ''[1] OK'' @ [0, 0, 13, 10]]) (ascii ''read 0x1018 1'') 1) =
     None \<and>
   recv (scripted [bytes ''[1] OK'' @ [0, 0, 13, 10]]) 0 =
     RecvBytes (bytes ''[1] OK'' @ [0, 0, 13, 10]) \<and>
   sendCommand (scripted [bytes ''[1] OK'' @ [0, 0, 13, 10]]) tcp_connected
       (ascii ''read 0x1018 1'') 1 =
     Some \<lparr>outcome = Returns (ascii ''[1] OK''), client = tcp_connected,
           io = [EvSendall (bytes ''[1] read 0x1018 1''), EvRecv 1024]\<rparr> \<and>
   NUL \<notin> set (ascii ''[1] OK'')"
proof -
  let ?env = "scripted [bytes ''[1] OK'' @ [0, 0, 13, 10]]"
  have h1: "sock tcp_connected = Some (Socket AF_INET True)"
    by (simp add: fixture_defs)
  have h2: "send_try ?env (ascii ''read 0x1018 1'') 1 =
     Some (Completed (ascii ''[1] OK''), [EvSendall (bytes ''[1] read 0x1018 1''), EvRecv 1024])"
    by (simp add: fixture_defs send_defs recv_loop.simps)
  have h3: "fst (send_phase ?env (ascii ''read 0x1018 1'') 1) = None"
    by (simp add: fixture_defs send_defs)
  have h4: "recv ?env 0 = RecvBytes (bytes ''[1] OK'' @ [0, 0, 13, 10])"
    by (simp add: fixture_defs)
  from reply_without_nul [OF h1, of ?env "ascii ''read 0x1018 1''" 1] h1 h2 h3 h4
  show ?thesis by simp
qed

text \<open>
  C4 as stated fails on its own example: for the raw response \<open>"[1] OK\x00\x00\r\n"\<close> the
  returned text is \<open>"[1] OK"\<close>, not \<open>"OK"\<close>.
\<close>

theorem padded_reply_counterexample:
  "sendCommand (scripted [bytes ''[1] OK'' @ [0, 0, 13, 10]]) tcp_connected
     (ascii ''read 0x1018 1'') 1 =
     Some \<lparr>outcome = Returns (ascii ''[1] OK''), client = tcp_connected,
           io = [EvSendall (bytes ''[1] read 0x1018 1''), EvRecv 1024]\<rparr> \<and>
   ascii ''[1] OK'' \<noteq> ascii ''OK''"
  by (simp add: fixture_defs send_defs recv_loop.simps)

lemma sendCommand_client:
  "sendCommand env c cmd index = Some r \<Longrightarrow> client r = c \<and> (\<exists>reply. outcome r = Returns reply)"
  by (auto simp: sendCommand_def split: option.splits)

lemma accumulated_silent: "accumulated (recv (scripted [])) m = Some []"
  by (induction m) (simp_all add: scripted_def)

lemma accumulated_None_mono:
  "accumulated rx m = None \<Longrightarrow> m \<le> k \<Longrightarrow> accumulated rx k = None"
  by (induction k) (auto simp: le_Suc_eq)

text \<open>
  When the text of the first \<open>n\<close> chunks holds no terminator and the next read raises or
  cannot be decoded, the loop is left by that exception after \<open>Suc n\<close> reads.
\<close>

lemma recv_loop_aborts:
  assumes acc: "accumulated rx n = Some data"
    and quiet: "\<forall>m\<le>n. \<forall>t. accumulated rx m = Some t \<longrightarrow> \<not> contains_crlf t"
    and fail: "accumulated rx (Suc n) = None"
  shows "\<exists>err. recv_loop rx 0 [] = Some (Abort err data, Suc n)"
proof -
  from recv_loop_returns [of rx "Suc n"] fail
  obtain y where y: "recv_loop rx 0 [] = Some y" by auto
  from recv_loop_sound [OF y] have post: "loop_post rx 0 y" .
  show ?thesis
  proof (cases "fst y")
    case (Break d)
    with post have d: "accumulated rx (snd y) = Some d" "contains_crlf d"
      by (simp_all add: loop_post_def)
    have "snd y \<le> n"
    proof (rule ccontr)
      assume "\<not> snd y \<le> n"
      then have "Suc n \<le> snd y" by simp
      from accumulated_None_mono [OF fail this] d(1) show False by simp
    qed
    with quiet d show ?thesis by blast
  next
    case (Abort err d)
    with post have k: "accumulated rx (snd y - 1) = Some d" "accumulated rx (snd y) = None"
      by (simp_all add: loop_post_def)
    have lower: "n < snd y"
    proof (rule ccontr)
      assume "\<not> n < snd y"
      then have "snd y \<le> n" by simp
      from accumulated_None_mono [OF k(2) this] acc show False by simp
    qed
    have upper: "snd y - 1 < Suc n"
    proof (rule ccontr)
      assume "\<not> snd y - 1 < Suc n"
      then have "Suc n \<le> snd y - 1" by simp
      from accumulated_None_mono [OF fail this] k(1) show False by simp
    qed
    from lower upper have "snd y = Suc n" by arith
    with k(1) acc have "y = (Abort err data, Suc n)"
      using Abort by (cases y) simp
    with y show ?thesis by blast
  qed
qed

lemma accumulated_partial:
  "accumulated (recv (scripted [bytes ''[1] O''])) (Suc m) = Some (ascii ''[1] O'')"
  by (induction m) (simp_all add: scripted_def bytes_def ascii_def)

text \<open>
  C8, amended: every run of \<open>sendCommand\<close> that returns leaves the client as it was: handle,
  socket type, address, port and verbose flag are those before the call.  Whenever an
  exception occurs the call does return, with the text held at that moment: the empty
  string when building, encoding or sending the message raises, and the decoded text of
  the first \<open>n\<close> chunks when that text holds no terminator and the next read raises (a
  socket error, a connection reset) or cannot be decoded.
\<close>

theorem sendCommand_keeps_connection:
  "(\<forall>r. sendCommand env c cmd index = Some r \<longrightarrow>
      client r = c \<and> sock (client r) = sock c \<and> sock_type (client r) = sock_type c \<and>
      server_address (client r) = server_address c \<and>
      server_port (client r) = server_port c \<and> showVerbose (client r) = showVerbose c) \<and>
   (sock c \<noteq> None \<and> fst (send_phase env cmd index) = Some err \<longrightarrow>
      sendCommand env c cmd index =
        Some \<lparr>outcome = Returns [], client = c, io = snd (send_phase env cmd index)\<rparr>) \<and>
   (sock c \<noteq> None \<and> fst (send_phase env cmd index) = None \<and>
      accumulated (recv env) n = Some data \<and>
      (\<forall>m\<le>n. \<forall>t. accumulated (recv env) m = Some t \<longrightarrow> \<not> contains_crlf t) \<and>
      accumulated (recv env) (Suc n) = None \<longrightarrow>
      sendCommand env c cmd index =
        Some \<lparr>outcome = Returns data, client = c,
              io = snd (send_phase env cmd index) @ replicate (Suc n) (EvRecv 1024)\<rparr>)"
proof -
  have same: "client r = c \<and> sock (client r) = sock c \<and> sock_type (client r) = sock_type c \<and>
      server_address (client r) = server_address c \<and>
      server_port (client r) = server_port c \<and> showVerbose (client r) = showVerbose c"
    if "sendCommand env c cmd index = Some r" for r
    using sendCommand_client [OF that] by simp
  have early: "sendCommand env c cmd index =
        Some \<lparr>outcome = Returns [], client = c, io = snd (send_phase env cmd index)\<rparr>"
    if h: "sock c \<noteq> None \<and> fst (send_phase env cmd index) = Some err"
  proof -
    from h obtain s where s: "sock c = Some s" by auto
    obtain evs where "send_phase env cmd index = (Some err, evs)"
      using h by (cases "send_phase env cmd index") auto
    with s show ?thesis by (simp add: sendCommand_def send_try_def)
  qed
  have late: "sendCommand env c cmd index =
        Some \<lparr>outcome = Returns data, client = c,
              io = snd (send_phase env cmd index) @ replicate (Suc n) (EvRecv 1024)\<rparr>"
    if h: "sock c \<noteq> None \<and> fst (send_phase env cmd index) = None \<and>
      accumulated (recv env) n = Some data \<and>
      (\<forall>m\<le>n. \<forall>t. accumulated (recv env) m = Some t \<longrightarrow> \<not> contains_crlf t) \<and>
      accumulated (recv env) (Suc n) = None"
  proof -
    from h obtain s where s: "sock c = Some s" by auto
    obtain evs where sp: "send_phase env cmd index = (None, evs)"
      using h by (cases "send_phase env cmd index") auto
    from h have acc: "accumulated (recv env) n = Some data" by blast
    from h have quiet: "\<forall>m\<le>n. \<forall>t. accumulated (recv env) m = Some t \<longrightarrow> \<not> contains_crlf t"
      by blast
    from h have fail: "accumulated (recv env) (Suc n) = None" by blast
    from recv_loop_aborts [OF acc quiet fail] obtain e where "recv_loop (recv env) 0 [] = Some (Abort e data, Suc n)" by blast
    with s sp show ?thesis by (simp add: sendCommand_def send_try_def)
  qed
  from same early late show ?thesis by blast
qed

theorem sendCommand_keeps_connection_witness:
  "sock tcp_connected \<noteq> None \<and>
   fst (send_phase ((scripted [])\<lparr>sendall := Some (OSError 32)\<rparr>) (ascii ''read 0x1018 1'') 1) =
     Some (OSError 32) \<and>
   sendCommand ((scripted [])\<lparr>sendall := Some (OSError 32)\<rparr>) tcp_connected
       (ascii ''read 0x1018 1'') 1 =
     Some \<lparr>outcome = Returns [], client = tcp_connected,
           io = [EvSendall (bytes ''[1] read 0x1018 1'')]\<rparr> \<and>
   fst (send_phase (reset_after [bytes ''[1] O'']) (ascii ''read 0x1018 1'') 1) = None \<and>
   accumulated (recv (reset_after [bytes ''[1] O''])) 1 = Some (ascii ''[1] O'') \<and>
   accumulated (recv (reset_after [bytes ''[1] O''])) (Suc 1) = None \<and>
   sendCommand (reset_after [bytes ''[1] O'']) tcp_connected (ascii ''read 0x1018 1'') 1 =
     Some \<lparr>outcome = Returns (ascii ''[1] O''), client = tcp_connected,
           io = [EvSendall (bytes ''[1] read 0x1018 1''), EvRecv 1024, EvRecv 1024]\<rparr>"
proof -
  let ?broken = "(scripted [])\<lparr>sendall := Some (OSError 32)\<rparr>"
  let ?env = "reset_after [bytes ''[1] O'']"
  have h1: "sock tcp_connected \<noteq> None"
    by (simp add: fixture_defs)
  have b1: "fst (send_phase ?broken (ascii ''read 0x1018 1'') 1) = Some (OSError 32)"
    by (simp add: fixture_defs send_defs)
  have b2: "snd (send_phase ?broken (ascii ''read 0x1018 1'') 1) =
              [EvSendall (bytes ''[1] read 0x1018 1'')]"
    by (simp add: fixture_defs send_defs)
  have h3: "fst (send_phase ?env (ascii ''read 0x1018 1'') 1) = None"
    by (simp add: fixture_defs send_defs)
  have s3: "snd (send_phase ?env (ascii ''read 0x1018 1'') 1) =
              [EvSendall (bytes ''[1] read 0x1018 1'')]"
    by (simp add: fixture_defs send_defs)
  have a1: "accumulated (recv ?env) 1 = Some (ascii ''[1] O'')"
    by (simp add: fixture_defs)
  have a2: "accumulated (recv ?env) (Suc 1) = None"
    by (simp add: fixture_defs)
  have quiet: "\<forall>m\<le>1. \<forall>t. accumulated (recv ?env) m = Some t \<longrightarrow> \<not> contains_crlf t"
  proof (intro allI impI)
    fix m t
    assume "m \<le> 1" and t: "accumulated (recv ?env) m = Some t"
    then have "m = 0 \<or> m = 1" by arith
    then show "\<not> contains_crlf t"
    proof
      assume "m = 0"
      with t show ?thesis by simp
    next
      assume "m = 1"
      with t a1 show ?thesis by (simp add: ascii_def CR_def LF_def)
    qed
  qed
  from sendCommand_keeps_connection
         [of ?broken tcp_connected "ascii ''read 0x1018 1''" 1 "OSError 32"]
    sendCommand_keeps_connection
         [of ?env tcp_connected "ascii ''read 0x1018 1''" 1 _ 1 "ascii ''[1] O''"]
    h1 b1 b2 h3 s3 a1 a2 quiet
  show ?thesis by (simp add: numeral_2_eq_2)
qed

text \<open>
  C8 as stated fails when the peer shuts down in the middle of a reply: after the chunk
  \<open>"[1] O"\<close> every read returns no bytes, no exception is raised, and the call never
  returns the text it has accumulated.
\<close>

theorem shutdown_mid_read_counterexample:
  "accumulated (recv (scripted [bytes ''[1] O''])) 1 = Some (ascii ''[1] O'') \<and>
   sendCommand (scripted [bytes ''[1] O'']) tcp_connected (ascii ''read 0x1018 1'') 1 = None"
proof -
  have "\<exists>t. accumulated (recv (scripted [bytes ''[1] O''])) m = Some t \<and> \<not> contains_crlf t"
    for m
  proof (cases m)
    case 0
    then show ?thesis by simp
  next
    case (Suc k)
    have "accumulated (recv (scripted [bytes ''[1] O''])) (Suc k) = Some (ascii ''[1] O'')"
      by (rule accumulated_partial)
    moreover have "\<not> contains_crlf (ascii ''[1] O'')"
      by (simp add: ascii_def CR_def LF_def)
    ultimately show ?thesis unfolding Suc by blast
  qed
  then have "recv_loop (recv (scripted [bytes ''[1] O''])) 0 [] = None"
    by (rule recv_loop_blocks)
  then have "sendCommand (scripted [bytes ''[1] O'']) tcp_connected
               (ascii ''read 0x1018 1'') 1 = None"
    by (simp add: fixture_defs send_defs)
  moreover have "accumulated (recv (scripted [bytes ''[1] O''])) 1 = Some (ascii ''[1] O'')"
    using accumulated_partial [of 0] by simp
  ultimately show ?thesis by simp
qed

text \<open>
  C9, amended: \<open>sendCommand\<close> never raises; it returns a string, except that it never returns
  when it is connected, the send succeeded and every read yields decodable bytes without
  the text ever containing \<open>\r\n\<close>.  \<open>connect\<close> returns a boolean whenever creating the
  Unix-domain socket does not raise, and \<open>disconnect\<close> returns normally whenever closing
  the socket does not raise.
\<close>

theorem no_exception_crosses_boundary:
  "(\<forall>r. sendCommand env c cmd index = Some r \<longrightarrow> (\<exists>reply. outcome r = Returns reply)) \<and>
   (sendCommand env c cmd index = None \<longleftrightarrow>
      sock c \<noteq> None \<and> fst (send_phase env cmd index) = None \<and>
      (\<forall>m. \<exists>t. accumulated (recv env) m = Some t \<and> \<not> contains_crlf t)) \<and>
   ((sock c = None \<and> sock_type c = Some UNIX \<and> platform_system env = ''Linux''
       \<longrightarrow> socket_new env = None) \<longrightarrow>
    (\<exists>b. outcome (connect env c) = Returns b)) \<and>
   ((sock c \<noteq> None \<longrightarrow> sock_close env = None) \<longrightarrow>
    outcome (disconnect env c) = Returns ())"
proof -
  have never: "\<exists>reply. outcome r = Returns reply"
    if "sendCommand env c cmd index = Some r" for r
    using sendCommand_client [OF that] by simp
  have blocks: "sendCommand env c cmd index = None \<longleftrightarrow>
      sock c \<noteq> None \<and> fst (send_phase env cmd index) = None \<and>
      (\<forall>m. \<exists>t. accumulated (recv env) m = Some t \<and> \<not> contains_crlf t)"
  proof (cases "sock c")
    case None
    then show ?thesis by (simp add: sendCommand_def)
  next
    case (Some s)
    obtain e evs where sp: "send_phase env cmd index = (e, evs)"
      by (cases "send_phase env cmd index")
    show ?thesis
    proof (cases e)
      case (Some err)
      with sp \<open>sock c = Some s\<close> show ?thesis
        by (simp add: sendCommand_def send_try_def)
    next
      case None
      have send: "sendCommand env c cmd index = None \<longleftrightarrow> recv_loop (recv env) 0 [] = None"
        using sp None \<open>sock c = Some s\<close>
        by (auto simp: sendCommand_def send_try_def split: option.splits loop_exit.splits)
      have "recv_loop (recv env) 0 [] = None \<longleftrightarrow>
              (\<forall>m. \<exists>t. accumulated (recv env) m = Some t \<and> \<not> contains_crlf t)"
      proof
        assume quiet: "\<forall>m. \<exists>t. accumulated (recv env) m = Some t \<and> \<not> contains_crlf t"
        then show "recv_loop (recv env) 0 [] = None"
          by (intro recv_loop_blocks) simp
      next
        assume none: "recv_loop (recv env) 0 [] = None"
        show "\<forall>m. \<exists>t. accumulated (recv env) m = Some t \<and> \<not> contains_crlf t"
        proof (rule ccontr)
          assume "\<not> (\<forall>m. \<exists>t. accumulated (recv env) m = Some t \<and> \<not> contains_crlf t)"
          then obtain m where "accumulated (recv env) m = None \<or>
              (\<exists>t. accumulated (recv env) m = Some t \<and> contains_crlf t)"
            by (metis option.exhaust)
          from recv_loop_returns [OF this] none show False by simp
        qed
      qed
      with send sp None \<open>sock c = Some s\<close> show ?thesis by simp
    qed
  qed
  have conn: "\<exists>b. outcome (connect env c) = Returns b"
    if "sock c = None \<and> sock_type c = Some UNIX \<and> platform_system env = ''Linux''
          \<longrightarrow> socket_new env = None"
    using that
    by (auto simp: connect_def connectUnixSocket_def connectTcpSocket_def
          split: option.splits SocketType.splits)
  have disc: "outcome (disconnect env c) = Returns ()"
    if "sock c \<noteq> None \<longrightarrow> sock_close env = None"
    using that by (auto simp: disconnect_def split: option.splits)
  from never blocks conn disc show ?thesis by blast
qed

theorem no_exception_crosses_boundary_witness:
  "sendCommand (reset_after []) tcp_connected (ascii ''read 0x1018 1'') 1 =
     Some \<lparr>outcome = Returns [], client = tcp_connected,
           io = [EvSendall (bytes ''[1] read 0x1018 1''), EvRecv 1024]\<rparr> \<and>
   accumulated (recv (reset_after [])) 1 = None \<and>
   socket_new refused = None \<and>
   outcome (connect refused unix_client) = Returns False \<and>
   sock_close (scripted []) = None \<and>
   outcome (disconnect (scripted []) tcp_connected) = Returns ()"
proof -
  have run: "sendCommand (reset_after []) tcp_connected (ascii ''read 0x1018 1'') 1 =
     Some \<lparr>outcome = Returns [], client = tcp_connected,
           io = [EvSendall (bytes ''[1] read 0x1018 1''), EvRecv 1024]\<rparr>"
    by (simp add: fixture_defs send_defs recv_loop.simps)
  have acc: "accumulated (recv (reset_after [])) 1 = None"
    by (simp add: fixture_defs)
  have new: "socket_new refused = None"
    by (simp add: fixture_defs)
  have cl: "sock_close (scripted []) = None"
    by (simp add: fixture_defs)
  from no_exception_crosses_boundary
         [of "reset_after []" tcp_connected "ascii ''read 0x1018 1''" 1]
    no_exception_crosses_boundary [of refused unix_client "[]" 1]
    no_exception_crosses_boundary [of "scripted []" tcp_connected "[]" 1]
    run acc new cl
  show ?thesis
    by (simp add: connect_def connectUnixSocket_def disconnect_def fixture_defs)
qed

text \<open>
  C9 as stated fails: when the peer has shut down without sending the terminator, every
  read returns no bytes and \<open>sendCommand\<close> never returns; and when closing the socket fails
  with an I/O error, \<open>disconnect\<close> raises it to the caller.
\<close>

theorem boundary_counterexample:
  "sendCommand (scripted []) tcp_connected (ascii ''read 0x1018 1'') 1 = None \<and>
   outcome (disconnect ((scripted [])\<lparr>sock_close := Some (OSError 5)\<rparr>) tcp_connected) =
     Raises (OSError 5)"
proof -
  have "recv_loop (recv (scripted [])) 0 [] = None"
    by (rule recv_loop_blocks) (simp add: accumulated_silent)
  then have "sendCommand (scripted []) tcp_connected (ascii ''read 0x1018 1'') 1 = None"
    by (simp add: fixture_defs send_defs)
  moreover
  have "outcome (disconnect ((scripted [])\<lparr>sock_close := Some (OSError 5)\<rparr>) tcp_connected) =
     Raises (OSError 5)"
    by (simp add: disconnect_def fixture_defs)
  ultimately show ?thesis by simp
qed

end
